theory Spec2Isabelle
  imports Complex_Main
begin

section \<open>Python, NumPy, torch and faiss operations used by the classifier\<close>

text \<open>
  The deep k-nearest-neighbour classifier \<^verbatim>\<open>DKNN\<close> of \<^verbatim>\<open>lib/mnist_model.py\<close> is
  embedded as functions over a record of its attributes.  Exceptions are values: a
  function that can raise returns \<open>error + 'a\<close>, with \<open>Inl\<close> for the exception.

  Data representation.  A batch (a tensor or array whose first dimension is the sample) is
  the list of its rows; a row is the flattened list of the sample's entries.  Floating-point
  entries are real numbers: rounding and overflow are not modelled.  The one operation whose
  result can leave the reals, the final division of \<^verbatim>\<open>credibility\<close>, returns an
  \<open>npfloat\<close>.  Labels are integers.
\<close>

datatype error = AssertionError | RuntimeError | KeyError | IndexError | ValueError

type_synonym 'a result = "error + 'a"

text \<open>Running a raising function over a list stops at the first exception.\<close>

fun mapM :: "('a \<Rightarrow> 'b result) \<Rightarrow> 'a list \<Rightarrow> 'b list result" where
  "mapM f [] = Inr []"
| "mapM f (x # xs) =
     (case f x of
        Inl e \<Rightarrow> Inl e
      | Inr y \<Rightarrow> (case mapM f xs of Inl e \<Rightarrow> Inl e | Inr ys \<Rightarrow> Inr (y # ys)))"

text \<open>
  \<^verbatim>\<open>a[i]\<close> for an integer \<open>i\<close>: an index below zero counts from the end, an index outside
  \<open>[-len, len)\<close> raises IndexError.
\<close>

definition np_getitem :: "'a list \<Rightarrow> int \<Rightarrow> 'a result" where
  "np_getitem a i =
     (if 0 \<le> i \<and> i < int (length a) then Inr (a ! nat i)
      else if - int (length a) \<le> i \<and> i < 0 then Inr (a ! nat (int (length a) + i))
      else Inl IndexError)"

text \<open>
  \<^verbatim>\<open>np.bincount(xs, minlength=m)\<close>: a negative entry raises ValueError; otherwise the
  result has \<open>max m (largest entry + 1)\<close> bins, bin \<open>c\<close> counting the entries equal to \<open>c\<close>.
\<close>

definition bincount :: "int list \<Rightarrow> nat \<Rightarrow> real list result" where
  "bincount xs minlength =
     (if list_ex (\<lambda>x. x < 0) xs then Inl ValueError
      else Inr (map (\<lambda>c. real (count_list xs (int c)))
                  [0 ..< max minlength (nat (fold max xs (- 1) + 1))]))"

text \<open>
  \<^verbatim>\<open>a += b\<close> on one-dimensional arrays: \<open>b\<close> must have the shape of \<open>a\<close> or be
  broadcast from a single entry; any other shape raises ValueError.
\<close>

definition np_iadd :: "real list \<Rightarrow> real list \<Rightarrow> real list result" where
  "np_iadd a b =
     (if length b = length a then Inr (map2 (+) a b)
      else if length b = 1 then Inr (map (\<lambda>v. v + hd b) a)
      else Inl ValueError)"

text \<open>
  \<^verbatim>\<open>np.max\<close> along a row: an empty row has no maximum and raises ValueError.  (A matrix
  is the list of its rows, so a matrix with no rows is \<open>[]\<close> whatever its width.)
\<close>

definition np_max :: "real list \<Rightarrow> real result" where
  "np_max row = (case row of [] \<Rightarrow> Inl ValueError | v # vs \<Rightarrow> Inr (fold max vs v))"

text \<open>
  The quotient of a count by an integer in float64 arithmetic: division by zero does not
  raise, it yields \<^verbatim>\<open>nan\<close> for \<open>0/0\<close> and \<^verbatim>\<open>inf\<close> otherwise.
\<close>

datatype npfloat = Finite real | PosInf | NaN

definition np_divide :: "nat \<Rightarrow> nat \<Rightarrow> npfloat" where
  "np_divide c n =
     (if n = 0 then (if c = 0 then NaN else PosInf) else Finite (real c / real n))"

text \<open>Comparison of float64 values: every comparison with \<^verbatim>\<open>nan\<close> is false.\<close>

fun float_ge :: "npfloat \<Rightarrow> npfloat \<Rightarrow> bool" where
  "float_ge (Finite a) (Finite b) = (b \<le> a)"
| "float_ge PosInf (Finite b) = True"
| "float_ge PosInf PosInf = True"
| "float_ge (Finite a) PosInf = False"
| "float_ge NaN y = False"
| "float_ge x NaN = False"

fun float_eq :: "npfloat \<Rightarrow> npfloat \<Rightarrow> bool" where
  "float_eq (Finite a) (Finite b) = (a = b)"
| "float_eq PosInf PosInf = True"
| "float_eq x y = False"

text \<open>
  \<^verbatim>\<open>t.renorm(2, 0, maxnorm)\<close>: every row of \<open>t\<close> whose 2-norm exceeds \<open>maxnorm\<close> is
  scaled by \<open>maxnorm / (norm + 1e-7)\<close>; a row whose norm is at most \<open>maxnorm\<close> is left as
  it is.  The arithmetic is that of the reals: the rounding of the scaled rows is not
  modelled, so nothing is claimed here about the norm of a row that was scaled.
\<close>

definition norm2 :: "real list \<Rightarrow> real" where
  "norm2 v = sqrt (sum_list (map (\<lambda>x. x\<^sup>2) v))"

definition renorm :: "real \<Rightarrow> real list list \<Rightarrow> real list list" where
  "renorm maxnorm t =
     map (\<lambda>v. if norm2 v > maxnorm
              then map (\<lambda>x. x * (maxnorm / (norm2 v + 1 / 10 ^ 7))) v
              else v) t"

text \<open>
  The faiss index.  An index is modelled by its dimension, its number of hash bits and the
  vectors added to it.  How the library answers a query is a parameter of the model: a
  \<open>search\<close> function that, for an index, a batch of queries and \<open>k\<close>, either raises (the
  library asserts, for one, that \<open>k\<close> is positive and that the queries have the dimension
  of the index) or returns the pair \<open>(D, I)\<close> of distances and stored positions.
  Searching does not change the index.
\<close>

record faiss_index =
  index_d :: nat
  index_nbits :: nat
  index_xb :: "real list list"

definition IndexLSH :: "nat \<Rightarrow> nat \<Rightarrow> faiss_index" where
  "IndexLSH d nbits = \<lparr>index_d = d, index_nbits = nbits, index_xb = []\<rparr>"

definition index_add :: "faiss_index \<Rightarrow> real list list \<Rightarrow> faiss_index" where
  "index_add index xb = index\<lparr>index_xb := index_xb index @ xb\<rparr>"

type_synonym 'd search =
  "faiss_index \<Rightarrow> real list list \<Rightarrow> nat \<Rightarrow> ('d \<times> int list list) result"

text \<open>
  When it returns, the library returns for \<open>n\<close> queries an array \<open>I\<close> of \<open>n\<close> rows and
  \<open>k\<close> columns.
\<close>

definition search_shape :: "'d search \<Rightarrow> bool" where
  "search_shape search =
     (\<forall>index q k D I. search index q k = Inr (D, I) \<longrightarrow>
        length I = length q \<and> list_all (\<lambda>row. length row = k) I)"

text \<open>
  The network.  Its forward pass calls every named child; \<open>child_output name x\<close> is the
  flattened output of child \<open>name\<close> for the sample \<open>x\<close>, and \<open>child_ndim name\<close> is the
  number of dimensions of the child's output tensor, the batch dimension included.
\<close>

record 'x net =
  named_children :: "string list"
  child_output :: "string \<Rightarrow> 'x \<Rightarrow> real list"
  child_ndim :: "string \<Rightarrow> nat"

section \<open>The classifier\<close>

text \<open>
  The attributes of a \<^verbatim>\<open>DKNN\<close> object.  \<open>self_hooks\<close> lists the children on which
  the constructor registered a forward hook; \<open>self_A\<close> is empty until the constructor
  assigns it in its last step.
\<close>

record 'x dknn =
  self_model :: "'x net"
  self_x_train :: "'x list"
  self_y_train :: "int list"
  self_layers :: "string list"
  self_k :: nat
  self_num_classes :: nat
  self_indices :: "faiss_index list"
  self_activations :: "string \<rightharpoonup> real list list"
  self_hooks :: "string list"
  self_A :: "real list"

text \<open>\<^verbatim>\<open>_build_index\<close>: a fresh 256-bit LSH index of the rows' dimension, holding \<open>xb\<close>.\<close>

definition build_index :: "real list list \<Rightarrow> faiss_index" where
  "build_index xb =
     index_add (IndexLSH (case xb of [] \<Rightarrow> 0 | v # _ \<Rightarrow> length v) 256) xb"

text \<open>
  \<^verbatim>\<open>get_activations\<close>: the forward pass fires every registered hook, which stores the
  child's output for the batch under the child's name; the dictionary itself is returned.
\<close>

definition get_activations ::
  "'x dknn \<Rightarrow> 'x list \<Rightarrow> (string \<rightharpoonup> real list list) \<times> 'x dknn" where
  "get_activations self x =
     (let acts = fold (\<lambda>name a. a(name \<mapsto> map (child_output (self_model self) name) x))
                   (self_hooks self) (self_activations self)
      in (acts, self\<lparr>self_activations := acts\<rparr>))"

text \<open>
  The loop of \<^verbatim>\<open>get_neighbors\<close> over \<^verbatim>\<open>zip(self.layers, self.indices)\<close>.  A layer that
  is not requested is skipped.  For a requested layer, in the order of the source:
  \<^verbatim>\<open>reps[layer]\<close> raises KeyError when the layer has no stored output; \<^verbatim>\<open>renorm\<close>, called
  on the output before it is flattened, raises RuntimeError when the output has fewer than two
  dimensions; \<^verbatim>\<open>reshape(x.size(0), -1)\<close> keeps the rows as they are and raises ValueError
  on a batch of no samples; an exception of \<^verbatim>\<open>index.search\<close> propagates.
\<close>

fun neighbors_loop ::
  "'d search \<Rightarrow> (string \<rightharpoonup> real list list) \<Rightarrow> (string \<Rightarrow> nat) \<Rightarrow> nat \<Rightarrow> nat \<Rightarrow>
   string list \<Rightarrow> (string \<times> faiss_index) list \<Rightarrow> ('d \<times> int list list) list result" where
  "neighbors_loop search reps ndim n k layers [] = Inr []"
| "neighbors_loop search reps ndim n k layers ((layer, index) # rest) =
     (if layer \<in> set layers then
        (case reps layer of
           None \<Rightarrow> Inl KeyError
         | Some r \<Rightarrow>
             if ndim layer < 2 then Inl RuntimeError
             else if n = 0 then Inl ValueError
             else (case search index (renorm 1 r) k of
                     Inl e \<Rightarrow> Inl e
                   | Inr DI \<Rightarrow>
                       (case neighbors_loop search reps ndim n k layers rest of
                          Inl e \<Rightarrow> Inl e
                        | Inr output \<Rightarrow> Inr (DI # output))))
      else neighbors_loop search reps ndim n k layers rest)"

definition get_neighbors ::
  "'d search \<Rightarrow> 'x dknn \<Rightarrow> 'x list \<Rightarrow> nat option \<Rightarrow> string list option \<Rightarrow>
   ('d \<times> int list list) list result \<times> 'x dknn" where
  "get_neighbors search self x k layers =
     (let k' = (case k of None \<Rightarrow> self_k self | Some v \<Rightarrow> v);
          layers' = (case layers of None \<Rightarrow> self_layers self | Some ls \<Rightarrow> ls);
          (reps, self') = get_activations self x
      in (neighbors_loop search reps (child_ndim (self_model self)) (length x) k' layers'
            (zip (self_layers self) (self_indices self)), self'))"

text \<open>
  \<^verbatim>\<open>classify\<close>.  The inner loop adds, for each sample \<open>i\<close> of the batch, the histogram
  of the labels of its neighbours to row \<open>i\<close>; the outer loop runs over the layers' results.
  \<open>take_labels y_train I\<close> is \<^verbatim>\<open>y_train[I]\<close>, the labels at the positions in \<open>I\<close>.
\<close>

abbreviation take_labels :: "int list \<Rightarrow> int list list \<Rightarrow> int list list result" where
  "take_labels y_train I \<equiv> mapM (mapM (np_getitem y_train)) I"

fun count_loop ::
  "int list list \<Rightarrow> nat list \<Rightarrow> real list list \<Rightarrow> real list list result" where
  "count_loop y_pred [] class_counts = Inr class_counts"
| "count_loop y_pred (i # rest) class_counts =
     (case np_getitem y_pred (int i) of
        Inl e \<Rightarrow> Inl e
      | Inr labels \<Rightarrow>
          (case bincount labels 10 of
             Inl e \<Rightarrow> Inl e
           | Inr h \<Rightarrow>
               (case np_iadd (class_counts ! i) h of
                  Inl e \<Rightarrow> Inl e
                | Inr row \<Rightarrow> count_loop y_pred rest (class_counts[i := row]))))"

fun classify_loop ::
  "int list \<Rightarrow> nat \<Rightarrow> ('d \<times> int list list) list \<Rightarrow> real list list \<Rightarrow>
   real list list result" where
  "classify_loop y_train n [] class_counts = Inr class_counts"
| "classify_loop y_train n ((D, I) # nb) class_counts =
     (case take_labels y_train I of
        Inl e \<Rightarrow> Inl e
      | Inr y_pred \<Rightarrow>
          (case count_loop y_pred [0 ..< n] class_counts of
             Inl e \<Rightarrow> Inl e
           | Inr counts \<Rightarrow> classify_loop y_train n nb counts))"

definition classify ::
  "'d search \<Rightarrow> 'x dknn \<Rightarrow> 'x list \<Rightarrow> real list list result \<times> 'x dknn" where
  "classify search self x =
     (case get_neighbors search self x None None of
        (Inl e, self') \<Rightarrow> (Inl e, self')
      | (Inr nb, self') \<Rightarrow>
          (classify_loop (self_y_train self') (length x) nb
             (replicate (length x) (replicate (self_num_classes self') 0)), self'))"

text \<open>
  \<^verbatim>\<open>credibility\<close>.  \<open>cred_count\<close> is the body of its loop, \<^verbatim>\<open>np.sum(self.A >= a)\<close>.
  The method assigns to no attribute, so the object is returned as it was received.
\<close>

definition cred_count :: "real list \<Rightarrow> real \<Rightarrow> nat" where
  "cred_count A a = length (filter (\<lambda>v. a \<le> v) A)"

definition credibility ::
  "'x dknn \<Rightarrow> real list list \<Rightarrow> npfloat list result \<times> 'x dknn" where
  "credibility self class_counts =
     (case mapM np_max class_counts of
        Inl e \<Rightarrow> (Inl e, self)
      | Inr m \<Rightarrow>
          (let alpha = map (\<lambda>v. real (self_k self * length (self_layers self)) - v) m;
               cred = map (cred_count (self_A self)) alpha
           in (Inr (map (\<lambda>c. np_divide c (length (self_A self))) cred), self)))"

text \<open>
  The constructor.  \<open>init_attributes\<close> is the object after the assignments at its top
  and the registration of the hooks: a hook is registered on every named child whose name
  is in \<open>layers\<close>.  The calibration loop runs over \<^verbatim>\<open>enumerate(zip(y_cal, y_pred))\<close>
  and subtracts from \<open>A[i]\<close> the votes of the calibration sample's own label.
  \<^verbatim>\<open>view(x_train.size(0), -1)\<close> raises RuntimeError on an empty training batch.
\<close>

fun calibration_loop :: "nat \<Rightarrow> (int \<times> real list) list \<Rightarrow> real list \<Rightarrow> real list result" where
  "calibration_loop i [] A = Inr A"
| "calibration_loop i ((y_c, y_p) # rest) A =
     (case np_getitem y_p y_c of
        Inl e \<Rightarrow> Inl e
      | Inr v \<Rightarrow> calibration_loop (Suc i) rest (A[i := A ! i - v]))"

fun index_loop ::
  "(string \<rightharpoonup> real list list) \<Rightarrow> nat \<Rightarrow> string list \<Rightarrow> faiss_index list result" where
  "index_loop reps n [] = Inr []"
| "index_loop reps n (layer # rest) =
     (case reps layer of
        None \<Rightarrow> Inl KeyError
      | Some r \<Rightarrow>
          if n = 0 then Inl RuntimeError
          else (case index_loop reps n rest of
                  Inl e \<Rightarrow> Inl e
                | Inr indices \<Rightarrow> Inr (build_index (renorm 1 r) # indices)))"

definition init_attributes ::
  "'x net \<Rightarrow> 'x list \<Rightarrow> int list \<Rightarrow> string list \<Rightarrow> nat \<Rightarrow> nat \<Rightarrow> 'x dknn" where
  "init_attributes model x_train y_train layers k num_classes =
     \<lparr>self_model = model, self_x_train = x_train, self_y_train = y_train,
      self_layers = layers, self_k = k, self_num_classes = num_classes,
      self_indices = [], self_activations = Map.empty,
      self_hooks = filter (\<lambda>name. name \<in> set layers) (named_children model),
      self_A = []\<rparr>"

definition DKNN ::
  "'d search \<Rightarrow> 'x net \<Rightarrow> 'x list \<Rightarrow> int list \<Rightarrow> 'x list \<Rightarrow> int list \<Rightarrow> string list \<Rightarrow>
   nat \<Rightarrow> nat \<Rightarrow> 'x dknn result" where
  "DKNN search model x_train y_train x_cal y_cal layers k num_classes =
     (let self0 = init_attributes model x_train y_train layers k num_classes;
          layer_count = length (self_hooks self0)
      in if layer_count \<noteq> length layers then Inl AssertionError
         else
           (let (reps, self1) = get_activations self0 x_train
            in case index_loop reps (length x_train) layers of
                 Inl e \<Rightarrow> Inl e
               | Inr indices \<Rightarrow>
                   (case classify search (self1\<lparr>self_indices := indices\<rparr>) x_cal of
                      (Inl e, self2) \<Rightarrow> Inl e
                    | (Inr y_pred, self2) \<Rightarrow>
                        (case calibration_loop 0 (zip y_cal y_pred)
                                (replicate (length x_cal) (real (k * length layers))) of
                           Inl e \<Rightarrow> Inl e
                         | Inr A \<Rightarrow> Inr (self2\<lparr>self_A := A\<rparr>)))))"

text \<open>
  The value \<^verbatim>\<open>credibility\<close> computes for a row whose nonconformity is \<open>a\<close>: the body
  of its loop followed by the division by the size of the calibration set.
\<close>

definition credibility_at :: "'x dknn \<Rightarrow> real \<Rightarrow> npfloat" where
  "credibility_at self a = np_divide (cred_count (self_A self) a) (length (self_A self))"

section \<open>Example objects\<close>

text \<open>
  A search that never raises and satisfies the library's shape contract: for every query
  it returns the first \<open>k\<close> stored positions in insertion order and, where the index holds
  fewer than \<open>k\<close> vectors, fills the missing places with \<open>-1\<close>.
\<close>

definition padded_search :: "unit search" where
  "padded_search index q k =
     Inr ((), replicate (length q)
                (map int [0 ..< min k (length (index_xb index))]
                 @ replicate (k - length (index_xb index)) (- 1)))"

text \<open>A network with two children whose outputs, of shape \<open>(n, d)\<close>, are the input itself.\<close>

definition ex_net :: "real list net" where
  "ex_net = \<lparr>named_children = [''conv1'', ''fc''], child_output = (\<lambda>name x. x),
             child_ndim = (\<lambda>name. 2)\<rparr>"

text \<open>The object built from two training points, one calibration point and the layer \<open>fc\<close>.\<close>

definition ex_dknn :: "real list dknn" where
  "ex_dknn =
     \<lparr>self_model = ex_net, self_x_train = [[1, 0], [0, 1]], self_y_train = [0, 1],
      self_layers = [''fc''], self_k = 1, self_num_classes = 10,
      self_indices = [\<lparr>index_d = 2, index_nbits = 256, index_xb = [[1, 0], [0, 1]]\<rparr>],
      self_activations = [''fc'' \<mapsto> [[1, 0]]], self_hooks = [''fc''],
      self_A = [0]\<rparr>"

text \<open>The object built with no layers and an empty calibration set.\<close>

definition ex_no_layers :: "nat \<Rightarrow> real list dknn" where
  "ex_no_layers num_classes =
     \<lparr>self_model = ex_net, self_x_train = [[0, 0]], self_y_train = [0],
      self_layers = [], self_k = 1, self_num_classes = num_classes, self_indices = [],
      self_activations = Map.empty, self_hooks = [], self_A = []\<rparr>"

text \<open>
  An exact search by inner product (the brute-force index of the library).  As the library
  does, it raises AssertionError when \<open>k\<close> is zero or a query has not the dimension of the
  index; otherwise it returns, nearest first, the \<open>k\<close> stored positions of largest inner
  product with the query and, where the index holds fewer than \<open>k\<close> vectors, fills the
  missing places with \<open>-1\<close>.
\<close>

definition flat_ip_search :: "unit search" where
  "flat_ip_search index q k =
     (if k = 0 \<or> list_ex (\<lambda>v. length v \<noteq> index_d index) q then Inl AssertionError
      else Inr ((), map (\<lambda>v. map int (take k (sort_key
                                  (\<lambda>i. - sum_list (map2 (*) v (index_xb index ! i)))
                                  [0 ..< length (index_xb index)]))
                         @ replicate (k - length (index_xb index)) (- 1)) q))"

text \<open>A search that hands back the queries it receives as \<open>D\<close>, and position \<open>0\<close>.\<close>

definition echo_search :: "(real list list) search" where
  "echo_search index q k = Inr (q, replicate (length q) (replicate k 0))"

text \<open>The object built with the two layers \<open>conv1\<close> and \<open>fc\<close> and \<open>k = 2\<close>.\<close>

definition ex_two_layers :: "real list dknn" where
  "ex_two_layers =
     \<lparr>self_model = ex_net, self_x_train = [[1, 0], [0, 1]], self_y_train = [0, 1],
      self_layers = [''conv1'', ''fc''], self_k = 2, self_num_classes = 10,
      self_indices = [\<lparr>index_d = 2, index_nbits = 256, index_xb = [[1, 0], [0, 1]]\<rparr>,
                      \<lparr>index_d = 2, index_nbits = 256, index_xb = [[1, 0], [0, 1]]\<rparr>],
      self_activations = [''conv1'' \<mapsto> [[1, 0]], ''fc'' \<mapsto> [[1, 0]]],
      self_hooks = [''conv1'', ''fc''], self_A = [2]\<rparr>"

text \<open>
  The object built with twelve classes, from training labels \<open>11\<close> and \<open>3\<close> and a
  calibration point whose nearest neighbour has label \<open>11\<close>.
\<close>

definition ex_twelve :: "real list dknn" where
  "ex_twelve =
     \<lparr>self_model = ex_net, self_x_train = [[1, 0], [0, 1]], self_y_train = [11, 3],
      self_layers = [''fc''], self_k = 1, self_num_classes = 12,
      self_indices = [\<lparr>index_d = 2, index_nbits = 256, index_xb = [[1, 0], [0, 1]]\<rparr>],
      self_activations = [''fc'' \<mapsto> [[1, 0]]], self_hooks = [''fc''],
      self_A = [0]\<rparr>"

text \<open>The object built from one training vector of norm \<open>1/2\<close>.\<close>

definition ex_half :: "real list dknn" where
  "ex_half =
     \<lparr>self_model = ex_net, self_x_train = [[1 / 2, 0]], self_y_train = [0],
      self_layers = [''fc''], self_k = 1, self_num_classes = 10,
      self_indices = [\<lparr>index_d = 2, index_nbits = 256, index_xb = [[1 / 2, 0]]\<rparr>],
      self_activations = [''fc'' \<mapsto> [[1 / 2, 0]]], self_hooks = [''fc''],
      self_A = [0]\<rparr>"

section \<open>Basic facts\<close>

lemma get_activations_fields:
  "self_indices (snd (get_activations self x)) = self_indices self"
  "self_y_train (snd (get_activations self x)) = self_y_train self"
  "self_A (snd (get_activations self x)) = self_A self"
  "self_layers (snd (get_activations self x)) = self_layers self"
  "self_k (snd (get_activations self x)) = self_k self"
  "self_num_classes (snd (get_activations self x)) = self_num_classes self"
  "self_hooks (snd (get_activations self x)) = self_hooks self"
  "self_model (snd (get_activations self x)) = self_model self"
  by (simp_all add: get_activations_def Let_def)

lemma snd_get_neighbors:
  "snd (get_neighbors search self x k layers) = snd (get_activations self x)"
  by (simp add: get_neighbors_def Let_def split: prod.splits)

lemma snd_classify:
  "snd (classify search self x) = snd (get_activations self x)"
proof -
  have "snd (classify search self x) = snd (get_neighbors search self x None None)"
    by (simp add: classify_def split: prod.splits sum.splits)
  then show ?thesis by (simp add: snd_get_neighbors)
qed

lemma snd_credibility: "snd (credibility self class_counts) = self"
  by (simp add: credibility_def Let_def split: sum.splits)

lemma neighbors_loop_filter:
  "list_all (\<lambda>p. fst p \<in> set ls) zs \<Longrightarrow>
   neighbors_loop search reps ndim n k (filter (\<lambda>l. l \<in> set ls) req) zs
     = neighbors_loop search reps ndim n k req zs"
  by (induction zs) (auto split: option.splits sum.splits)

lemma zip_fst_in: "list_all (\<lambda>p. fst p \<in> set xs) (zip xs ys)"
  by (auto simp: list_all_iff dest: set_zip_leftD)

lemma fold_hooks:
  "fold (\<lambda>name a. a(name \<mapsto> f name)) hs m
     = (\<lambda>n. if n \<in> set hs then Some (f n) else m n)"
  by (induction hs arbitrary: m) (auto simp: fun_eq_iff)

lemma fst_get_activations:
  "fst (get_activations self x)
     = (\<lambda>n. if n \<in> set (self_hooks self)
             then Some (map (child_output (self_model self) n) x)
             else self_activations self n)"
  by (simp add: get_activations_def Let_def fold_hooks)

lemma activations_get_activations:
  "self_activations (snd (get_activations self x)) = fst (get_activations self x)"
  by (simp add: get_activations_def Let_def)

lemma index_loop_Inr:
  "index_loop reps n ls = Inr indices \<Longrightarrow>
     indices = map (\<lambda>l. build_index (renorm 1 (the (reps l)))) ls \<and>
     list_all (\<lambda>l. reps l \<noteq> None) ls \<and> (ls \<noteq> [] \<longrightarrow> n \<noteq> 0)"
  by (induction ls arbitrary: indices) (auto split: option.splits if_splits sum.splits)

lemma neighbors_loop_all:
  "list_all (\<lambda>p. fst p \<in> set req \<and> reps (fst p) \<noteq> None \<and> 2 \<le> ndim (fst p)) zs \<Longrightarrow>
   n \<noteq> 0 \<Longrightarrow>
   neighbors_loop search reps ndim n k req zs
     = mapM (\<lambda>p. search (snd p) (renorm 1 (the (reps (fst p)))) k) zs"
  by (induction zs) (auto split: option.splits sum.splits)

lemma neighbors_loop_Inr:
  "neighbors_loop search reps ndim n k req zs = Inr out \<Longrightarrow>
   list_all (\<lambda>p. fst p \<in> set req \<longrightarrow> 2 \<le> ndim (fst p) \<and> n \<noteq> 0) zs"
  by (induction zs arbitrary: out) (auto split: option.splits sum.splits if_splits)

lemma neighbors_loop_empty_batch_raises:
  "zs \<noteq> [] \<Longrightarrow> list_all (\<lambda>p. fst p \<in> set req) zs \<Longrightarrow>
   \<exists>e. neighbors_loop search reps ndim 0 k req zs = Inl e"
  by (cases zs) (auto split: option.splits)

lemma neighbors_loop_empty_batch:
  "zs \<noteq> [] \<Longrightarrow> list_all (\<lambda>p. fst p \<in> set req) zs \<Longrightarrow>
   list_all (\<lambda>p. reps (fst p) \<noteq> None \<and> 2 \<le> ndim (fst p)) zs \<Longrightarrow>
   neighbors_loop search reps ndim 0 k req zs = Inl ValueError"
  by (cases zs) (auto split: option.splits)

lemma fst_get_neighbors:
  "fst (get_neighbors search self x k layers)
     = neighbors_loop search (fst (get_activations self x)) (child_ndim (self_model self))
         (length x)
         (case k of None \<Rightarrow> self_k self | Some v \<Rightarrow> v)
         (case layers of None \<Rightarrow> self_layers self | Some ls \<Rightarrow> ls)
         (zip (self_layers self) (self_indices self))"
  by (simp add: get_neighbors_def Let_def split: prod.splits)

lemma fst_classify:
  "fst (classify search self x)
     = (case fst (get_neighbors search self x None None) of
          Inl e \<Rightarrow> Inl e
        | Inr nb \<Rightarrow> classify_loop (self_y_train self) (length x) nb
                     (replicate (length x) (replicate (self_num_classes self) 0)))"
proof -
  obtain r s where rs: "get_neighbors search self x None None = (r, s)"
    by (cases "get_neighbors search self x None None")
  have "s = snd (get_activations self x)"
    using snd_get_neighbors [of search self x None None] rs by simp
  then have "self_y_train s = self_y_train self" "self_num_classes s = self_num_classes self"
    by (simp_all add: get_activations_fields)
  then show ?thesis using rs by (simp add: classify_def split: sum.splits)
qed

lemma DKNN_unfold:
  "DKNN search model x_train y_train x_cal y_cal layers k num_classes =
     (let self0 = init_attributes model x_train y_train layers k num_classes
      in if length (self_hooks self0) \<noteq> length layers then Inl AssertionError
         else case index_loop (fst (get_activations self0 x_train)) (length x_train) layers of
             Inl e \<Rightarrow> Inl e
           | Inr indices \<Rightarrow>
               (let self1 = (snd (get_activations self0 x_train))\<lparr>self_indices := indices\<rparr>
                in case fst (classify search self1 x_cal) of
                  Inl e \<Rightarrow> Inl e
                | Inr y_pred \<Rightarrow>
                    (case calibration_loop 0 (zip y_cal y_pred)
                            (replicate (length x_cal) (real (k * length layers))) of
                       Inl e \<Rightarrow> Inl e
                     | Inr A \<Rightarrow> Inr ((snd (classify search self1 x_cal))\<lparr>self_A := A\<rparr>))))"
  by (auto simp: DKNN_def Let_def split: prod.splits sum.splits)

lemma init_attributes_simps:
  "self_model (init_attributes model x_train y_train layers k nc) = model"
  "self_y_train (init_attributes model x_train y_train layers k nc) = y_train"
  "self_layers (init_attributes model x_train y_train layers k nc) = layers"
  "self_k (init_attributes model x_train y_train layers k nc) = k"
  "self_num_classes (init_attributes model x_train y_train layers k nc) = nc"
  "self_indices (init_attributes model x_train y_train layers k nc) = []"
  "self_activations (init_attributes model x_train y_train layers k nc) = Map.empty"
  "self_hooks (init_attributes model x_train y_train layers k nc)
     = filter (\<lambda>name. name \<in> set layers) (named_children model)"
  "self_A (init_attributes model x_train y_train layers k nc) = []"
  by (simp_all add: init_attributes_def)

lemma DKNN_no_layers:
  "DKNN padded_search ex_net [[0, 0]] [0] [] [] [] 1 nc = Inr (ex_no_layers nc)"
  by (simp add: DKNN_def init_attributes_def ex_net_def ex_no_layers_def get_activations_def classify_def
        get_neighbors_def Let_def)

lemma upt_10: "[0 ..< 10] = [0, 1, 2, 3, 4, 5, 6, 7, 8, 9]"
  by (simp add: upt_rec)

lemma DKNN_ex_dknn:
  "DKNN padded_search ex_net [[1, 0], [0, 1]] [0, 1] [[1, 0]] [0] [''fc''] 1 10 = Inr ex_dknn"
  by (simp add: DKNN_def init_attributes_def ex_net_def ex_dknn_def get_activations_def
        classify_def get_neighbors_def padded_search_def renorm_def norm2_def
        build_index_def IndexLSH_def index_add_def np_getitem_def bincount_def np_iadd_def
        upt_10 Let_def)

lemma DKNN_ex_dknn_flat:
  "DKNN flat_ip_search ex_net [[1, 0], [0, 1]] [0, 1] [[1, 0]] [0] [''fc''] 1 10 = Inr ex_dknn"
  by (simp add: DKNN_def init_attributes_def ex_net_def ex_dknn_def get_activations_def
        classify_def get_neighbors_def flat_ip_search_def renorm_def norm2_def
        build_index_def IndexLSH_def index_add_def np_getitem_def bincount_def np_iadd_def
        upt_10 Let_def upt_rec)

lemma cred_count_le: "cred_count A a \<le> length A"
  by (simp add: cred_count_def)

lemma cred_count_antimono: "a1 \<le> a2 \<Longrightarrow> cred_count A a2 \<le> cred_count A a1"
proof (induction A)
  case Nil
  then show ?case by (simp add: cred_count_def)
next
  case (Cons v A)
  then show ?case by (auto simp: cred_count_def)
qed

lemma credibility_eq:
  "mapM np_max class_counts = Inr m \<Longrightarrow>
   fst (credibility self class_counts)
     = Inr (map (\<lambda>v. credibility_at self
                        (real (self_k self * length (self_layers self)) - v)) m)"
  by (simp add: credibility_def credibility_at_def Let_def comp_def)

lemma fst_classify_cong:
  assumes "self_model s = self_model s'" "self_hooks s = self_hooks s'"
    "self_layers s = self_layers s'" "self_indices s = self_indices s'"
    "self_k s = self_k s'" "self_y_train s = self_y_train s'"
    "self_num_classes s = self_num_classes s'"
    "\<And>n. n \<notin> set (self_hooks s) \<Longrightarrow> self_activations s n = self_activations s' n"
  shows "fst (classify search s x) = fst (classify search s' x)"
proof -
  have "fst (get_activations s x) = fst (get_activations s' x)"
    using assms by (auto simp: fst_get_activations fun_eq_iff)
  then have "fst (get_neighbors search s x None None) = fst (get_neighbors search s' x None None)"
    using assms by (simp add: fst_get_neighbors)
  then show ?thesis using assms by (simp add: fst_classify cong: sum.case_cong)
qed

lemma count_loop_length:
  "count_loop y_pred rng cc = Inr cc' \<Longrightarrow> length cc' = length cc"
  by (induction rng arbitrary: cc) (auto split: sum.splits)

lemma classify_loop_length:
  "classify_loop y_train n nb cc = Inr cc' \<Longrightarrow> length cc' = length cc"
proof (induction nb arbitrary: cc)
  case Nil
  then show ?case by simp
next
  case (Cons p nb)
  obtain D I where p: "p = (D, I)" by (cases p)
  from Cons.prems p obtain y_pred counts where
    "count_loop y_pred [0 ..< n] cc = Inr counts" "classify_loop y_train n nb counts = Inr cc'"
    by (auto split: sum.splits)
  then show ?case using Cons.IH count_loop_length by fastforce
qed

lemma classify_length:
  "fst (classify search self x) = Inr cc \<Longrightarrow> length cc = length x"
  by (auto simp: fst_classify split: sum.splits dest: classify_loop_length)

lemma calibration_loop_length:
  "calibration_loop i zs A = Inr A' \<Longrightarrow> length A' = length A"
  by (induction zs arbitrary: i A) (auto split: sum.splits)

lemma DKNN_Inr:
  fixes search :: "'d search" and model :: "'x net"
  assumes B: "DKNN search model x_train y_train x_cal y_cal layers k nc = Inr self"
  shows "self_model self = model" (is ?m) 
    and "self_y_train self = y_train" (is ?y)
    and "self_layers self = layers" (is ?l)
    and "self_k self = k" (is ?k)
    and "self_num_classes self = nc" (is ?n)
    and "self_hooks self = filter (\<lambda>name. name \<in> set layers) (named_children model)" (is ?h)
    and "self_indices self
           = map (\<lambda>l. build_index (renorm 1 (map (child_output model l) x_train))) layers" (is ?i)
    and "set layers \<subseteq> set (self_hooks self)" (is ?s)
    and "layers \<noteq> [] \<longrightarrow> x_train \<noteq> []" (is ?x)
    and "\<exists>y_pred. fst (classify search self x_cal) = Inr y_pred \<and>
           calibration_loop 0 (zip y_cal y_pred)
             (replicate (length x_cal) (real (k * length layers))) = Inr (self_A self)" (is ?c)
proof -
  define self0 where "self0 = init_attributes model x_train y_train layers k nc"
  define reps where "reps = fst (get_activations self0 x_train)"
  note D = DKNN_unfold [of search model x_train y_train x_cal y_cal layers k nc,
      unfolded Let_def, folded self0_def, folded reps_def]
  from B D have hk: "length (self_hooks self0) = length layers"
    by (auto split: if_splits)
  from B D hk obtain indices where I: "index_loop reps (length x_train) layers = Inr indices"
    by (auto split: sum.splits)
  define self1 where "self1 = (snd (get_activations self0 x_train))\<lparr>self_indices := indices\<rparr>"
  from B D hk I obtain y_pred where Y: "fst (classify search self1 x_cal) = Inr y_pred"
    by (auto simp: self1_def split: sum.splits)
  from B D hk I Y obtain A where
    C: "calibration_loop 0 (zip y_cal y_pred)
          (replicate (length x_cal) (real (k * length layers))) = Inr A"
    and S: "self = (snd (classify search self1 x_cal))\<lparr>self_A := A\<rparr>"
    by (auto simp: self1_def split: sum.splits)
  have S': "self = (snd (get_activations self1 x_cal))\<lparr>self_A := A\<rparr>"
    by (simp add: S snd_classify)
  show ?m ?y ?l ?k ?n ?h
    by (simp_all add: S' get_activations_fields self1_def self0_def init_attributes_simps)
  have hooks: "self_hooks self = self_hooks self0"
    by (simp add: S' get_activations_fields self1_def)
  have reps_eq: "reps = (\<lambda>n. if n \<in> set (self_hooks self0)
                              then Some (map (child_output model n) x_train) else None)"
    by (auto simp: reps_def fst_get_activations self0_def init_attributes_simps fun_eq_iff)
  from index_loop_Inr [OF I]
  have ind: "indices = map (\<lambda>l. build_index (renorm 1 (the (reps l)))) layers"
    and present: "list_all (\<lambda>l. reps l \<noteq> None) layers"
    and nonempty: "layers \<noteq> [] \<longrightarrow> length x_train \<noteq> 0" by simp_all
  show ?x using nonempty by simp
  show sub: ?s using present by (auto simp: hooks reps_eq list_all_iff split: if_splits)
  have "self_indices self = indices"
    by (simp add: S' get_activations_fields self1_def)
  also have "indices = map (\<lambda>l. build_index (renorm 1 (map (child_output model l) x_train))) layers"
    unfolding ind using sub by (auto simp: reps_eq hooks)
  finally show ?i .
  have "fst (classify search self x_cal) = fst (classify search self1 x_cal)"
  proof (rule fst_classify_cong)
    fix n assume "n \<notin> set (self_hooks self)"
    then show "self_activations self n = self_activations self1 n"
      by (auto simp: S' self1_def activations_get_activations fst_get_activations
            get_activations_fields self0_def init_attributes_simps)
  qed (simp_all add: S' get_activations_fields)
  moreover have "self_A self = A" by (simp add: S)
  ultimately show ?c using Y C by simp
qed

lemma DKNN_length_A:
  assumes "DKNN search model x_train y_train x_cal y_cal layers k nc = Inr self"
  shows "length (self_A self) = length x_cal"
  using DKNN_Inr(10) [OF assms] by (auto dest: calibration_loop_length)

lemma np_max_Cons: "np_max (v # vs) = Inr (fold max vs v)"
  by (simp add: np_max_def)

lemma mapM_np_max:
  "list_all (\<lambda>row. row \<noteq> []) cc \<Longrightarrow> \<exists>m. mapM np_max cc = Inr m \<and> length m = length cc"
proof (induction cc)
  case Nil
  then show ?case by simp
next
  case (Cons row cc)
  then obtain m where "mapM np_max cc = Inr m" "length m = length cc" by auto
  moreover from Cons.prems obtain v vs where "row = v # vs" by (cases row) auto
  ultimately show ?case by (simp add: np_max_Cons)
qed

lemma credibility_at_range:
  assumes "self_A self \<noteq> []"
  shows "\<exists>v. credibility_at self a = Finite v \<and> 0 \<le> v \<and> v \<le> 1"
proof -
  have "0 < length (self_A self)" using assms by simp
  then show ?thesis
    using cred_count_le [of "self_A self" a]
    by (simp add: credibility_at_def np_divide_def)
qed

lemma calibration_loop_nth:
  "calibration_loop i zs A = Inr A' \<Longrightarrow> i + length zs \<le> length A \<Longrightarrow>
     (\<forall>j < length zs. np_getitem (snd (zs ! j)) (fst (zs ! j))
                         = Inr (A ! (i + j) - A' ! (i + j))) \<and>
     (\<forall>j < length A. j < i \<or> i + length zs \<le> j \<longrightarrow> A' ! j = A ! j)"
proof (induction zs arbitrary: i A)
  case Nil
  then show ?case by simp
next
  case (Cons z zs)
  obtain y_c y_p where z: "z = (y_c, y_p)" by (cases z)
  from Cons.prems(1) z obtain v where
    v: "np_getitem y_p y_c = Inr v"
    and rec: "calibration_loop (Suc i) zs (A[i := A ! i - v]) = Inr A'"
    by (auto split: sum.splits)
  let ?A1 = "A[i := A ! i - v]"
  from Cons.prems(2) have le: "Suc i + length zs \<le> length ?A1" and i: "i < length A" by simp_all
  from Cons.IH [OF rec le]
  have ih1: "\<forall>j < length zs. np_getitem (snd (zs ! j)) (fst (zs ! j))
                         = Inr (?A1 ! (Suc i + j) - A' ! (Suc i + j))"
    and ih2: "\<forall>j < length ?A1. j < Suc i \<or> Suc i + length zs \<le> j \<longrightarrow> A' ! j = ?A1 ! j"
    by simp_all
  have Ai: "A' ! i = A ! i - v" using ih2 i by simp
  have first: "\<forall>j < length (z # zs). np_getitem (snd ((z # zs) ! j)) (fst ((z # zs) ! j))
                         = Inr (A ! (i + j) - A' ! (i + j))"
  proof (intro allI impI)
    fix j assume j: "j < length (z # zs)"
    show "np_getitem (snd ((z # zs) ! j)) (fst ((z # zs) ! j)) = Inr (A ! (i + j) - A' ! (i + j))"
    proof (cases j)
      case 0
      then show ?thesis using v z Ai by simp
    next
      case (Suc j')
      then have "j' < length zs" using j by simp
      with ih1 have "np_getitem (snd (zs ! j')) (fst (zs ! j'))
                         = Inr (?A1 ! (Suc i + j') - A' ! (Suc i + j'))" by simp
      then show ?thesis using Suc by simp
    qed
  qed
  have second: "\<forall>j < length A. j < i \<or> i + length (z # zs) \<le> j \<longrightarrow> A' ! j = A ! j"
    using ih2 by auto
  show ?case using first second by blast
qed

lemma replicate_10: "replicate 10 x = [x, x, x, x, x, x, x, x, x, x]"
  by (simp add: eval_nat_numeral)

lemma cred_count_card: "cred_count A a = card {i. i < length A \<and> a \<le> A ! i}"
  by (simp add: cred_count_def length_filter_conv_card)

lemma np_max_Max:
  assumes "row \<noteq> []"
  shows "np_max row = Inr (Max (set row))"
proof (cases row)
  case Nil
  then show ?thesis using assms by simp
next
  case (Cons v vs)
  have "Max (set (v # vs)) = fold max vs v" by (rule Max.set_eq_fold)
  then show ?thesis using Cons by (simp add: np_max_Cons)
qed

lemma fold_max_Max: "fold max xs (a::int) = Max (insert a (set xs))"
  using Max.set_eq_fold [of a xs] by simp

lemma fold_max_ge: "x \<in> set xs \<Longrightarrow> x \<le> fold max xs (a::int)"
  by (simp add: fold_max_Max)

lemma indicator_sum:
  "n < M \<Longrightarrow> sum_list (map (\<lambda>c. if n = c then 1 else 0 :: real) [0 ..< M]) = 1"
  by (simp add: interv_sum_list_conv_sum_set_nat)

lemma count_sum:
  "list_all (\<lambda>x. 0 \<le> x \<and> nat x < M) xs \<Longrightarrow>
   sum_list (map (\<lambda>c. real (count_list xs (int c))) [0 ..< M]) = real (length xs)"
proof (induction xs)
  case Nil
  then show ?case by simp
next
  case (Cons x xs)
  then have x: "0 \<le> x" "nat x < M" and ih:
    "sum_list (map (\<lambda>c. real (count_list xs (int c))) [0 ..< M]) = real (length xs)"
    by simp_all
  have "(\<lambda>c. real (count_list (x # xs) (int c)))
          = (\<lambda>c. real (count_list xs (int c)) + (if nat x = c then 1 else 0))"
    using x(1) by (auto simp: fun_eq_iff)
  then have "sum_list (map (\<lambda>c. real (count_list (x # xs) (int c))) [0 ..< M])
          = sum_list (map (\<lambda>c. real (count_list xs (int c))) [0 ..< M])
            + sum_list (map (\<lambda>c. if nat x = c then 1 else 0) [0 ..< M])"
    by (simp add: sum_list_addf)
  then show ?case using ih indicator_sum [OF x(2)] by simp
qed

lemma bincount_Inr:
  assumes "bincount xs m = Inr h"
  shows "length h = max m (nat (fold max xs (- 1) + 1))"
    and "sum_list h = real (length xs)"
    and "list_all (\<lambda>x. 0 \<le> x) xs"
proof -
  let ?M = "max m (nat (fold max xs (- 1) + 1))"
  from assms have nonneg: "\<not> list_ex (\<lambda>x. x < 0) xs"
    and h: "h = map (\<lambda>c. real (count_list xs (int c))) [0 ..< ?M]"
    by (auto simp: bincount_def split: if_splits)
  show "length h = ?M" by (simp add: h)
  show pos: "list_all (\<lambda>x. 0 \<le> x) xs"
    using nonneg by (auto simp: list_all_iff list_ex_iff)
  have "list_all (\<lambda>x. 0 \<le> x \<and> nat x < ?M) xs"
    unfolding list_all_iff
  proof
    fix x assume x: "x \<in> set xs"
    then have "0 \<le> x" using pos by (simp add: list_all_iff)
    moreover have "x \<le> fold max xs (- 1)" using x by (rule fold_max_ge)
    ultimately show "0 \<le> x \<and> nat x < ?M" by linarith
  qed
  then show "sum_list h = real (length xs)" unfolding h by (rule count_sum)
qed

lemma np_iadd_sum:
  assumes "np_iadd a b = Inr r" and "2 \<le> length b"
  shows "length r = length a" and "sum_list r = sum_list a + sum_list b"
proof -
  from assms have len: "length b = length a" and r: "r = map2 (+) a b"
    by (auto simp: np_iadd_def split: if_splits)
  show "length r = length a" by (simp add: r len)
  from len have "sum_list (map2 (+) a b) = sum_list a + sum_list b"
    by (induction b a rule: list_induct2) simp_all
  then show "sum_list r = sum_list a + sum_list b" by (simp add: r)
qed

lemma np_getitem_nat:
  "np_getitem a (int i) = Inr v \<Longrightarrow> i < length a \<and> v = a ! i"
  by (auto simp: np_getitem_def split: if_splits)

lemma count_loop_sum:
  assumes "count_loop y_pred rng cc = Inr cc'"
    and "distinct rng" and "list_all (\<lambda>i. i < length cc) rng"
    and "list_all (\<lambda>row. length row = k) y_pred"
  shows "\<forall>j < length cc. sum_list (cc' ! j)
           = sum_list (cc ! j) + (if j \<in> set rng then real k else 0)"
  using assms
proof (induction rng arbitrary: cc)
  case Nil
  then show ?case by simp
next
  case (Cons i rng)
  from Cons.prems(1) obtain labels h row where
    g: "np_getitem y_pred (int i) = Inr labels"
    and b: "bincount labels 10 = Inr h"
    and a: "np_iadd (cc ! i) h = Inr row"
    and rec: "count_loop y_pred rng (cc[i := row]) = Inr cc'"
    by (auto split: sum.splits)
  from np_getitem_nat [OF g] Cons.prems(4) have lk: "length labels = k"
    by (auto simp: list_all_iff)
  from bincount_Inr [OF b] lk have hs: "sum_list h = real k" and hl: "10 \<le> length h"
    by simp_all
  from np_iadd_sum [OF a] hl hs have rs: "sum_list row = sum_list (cc ! i) + real k"
    by simp
  from Cons.prems have i: "i < length cc" "i \<notin> set rng" by simp_all
  have "\<forall>j < length (cc[i := row]). sum_list (cc' ! j)
           = sum_list (cc[i := row] ! j) + (if j \<in> set rng then real k else 0)"
    using Cons.prems by (intro Cons.IH [OF rec]) simp_all
  then show ?case using i rs by (auto simp: nth_list_update)
qed

lemma mapM_Inr:
  "mapM f xs = Inr ys \<Longrightarrow> list_all2 (\<lambda>x y. f x = Inr y) xs ys"
  by (induction xs arbitrary: ys) (auto split: sum.splits)

lemma mapM_length: "mapM f xs = Inr ys \<Longrightarrow> length ys = length xs"
  by (drule mapM_Inr) (rule list_all2_lengthD [symmetric])

lemma sum_list_zeros: "sum_list (replicate n (0::real)) = 0"
  by (induction n) simp_all

lemma labels_shape:
  assumes "mapM (mapM (np_getitem y_train)) I = Inr y_pred"
    and "list_all (\<lambda>row. length row = k) I"
  shows "list_all (\<lambda>row. length row = k) y_pred"
proof -
  from mapM_Inr [OF assms(1)]
  have "list_all2 (\<lambda>irow row. length row = length irow) I y_pred"
    by (rule list_all2_mono) (simp add: mapM_length)
  then show ?thesis using assms(2)
    by (induction rule: list_all2_induct) simp_all
qed

lemma classify_loop_sum:
  assumes "classify_loop y_train n nb cc = Inr cc'"
    and "length cc = n"
    and "list_all (\<lambda>p. list_all (\<lambda>row. length row = k) (snd p)) nb"
  shows "\<forall>j < n. sum_list (cc' ! j) = sum_list (cc ! j) + real (k * length nb)"
  using assms
proof (induction nb arbitrary: cc)
  case Nil
  then show ?case by simp
next
  case (Cons p nb)
  obtain D I where p: "p = (D, I)" by (cases p)
  from Cons.prems(1) p obtain y_pred counts where
    y: "mapM (mapM (np_getitem y_train)) I = Inr y_pred"
    and c: "count_loop y_pred [0 ..< n] cc = Inr counts"
    and rec: "classify_loop y_train n nb counts = Inr cc'"
    by (auto split: sum.splits)
  from Cons.prems(3) p have I: "list_all (\<lambda>row. length row = k) I" by simp
  have step: "\<forall>j < length cc. sum_list (counts ! j)
           = sum_list (cc ! j) + (if j \<in> set [0 ..< n] then real k else 0)"
    using Cons.prems(2) by (intro count_loop_sum [OF c _ _ labels_shape [OF y I]])
       (simp_all add: list_all_iff)
  have lc: "length counts = n" using count_loop_length [OF c] Cons.prems(2) by simp
  have "\<forall>j < n. sum_list (cc' ! j) = sum_list (counts ! j) + real (k * length nb)"
    using Cons.prems(3) by (intro Cons.IH [OF rec lc]) simp
  then show ?case using step Cons.prems(2) by (auto simp: algebra_simps)
qed

lemma padded_search_shape: "search_shape padded_search"
  by (auto simp: search_shape_def padded_search_def list_all_iff)

lemma flat_ip_search_shape: "search_shape flat_ip_search"
  by (auto simp: search_shape_def flat_ip_search_def list_all_iff)

lemma length_renorm: "length (renorm m t) = length t"
  by (simp add: renorm_def)

lemma bincount_small:
  assumes "list_all (\<lambda>y. 0 \<le> y \<and> y < 10) labels"
  shows "\<exists>h. bincount labels 10 = Inr h \<and> length h = 10"
proof -
  have "\<not> list_ex (\<lambda>x. x < 0) labels"
    using assms by (auto simp: list_all_iff list_ex_iff)
  moreover have "fold max labels (- 1) \<le> 9"
    using assms by (auto simp: fold_max_Max list_all_iff)
  ultimately show ?thesis by (simp add: bincount_def)
qed

lemma bincount_length:
  assumes "bincount labels 10 = Inr h"
  shows "10 \<le> length h"
    and "labels \<noteq> [] \<Longrightarrow> length h = max 10 (nat (Max (set labels) + 1))"
proof -
  note b = bincount_Inr [OF assms]
  show "10 \<le> length h" using b(1) by simp
  assume ne: "labels \<noteq> []"
  then obtain y where y: "y \<in> set labels" by (cases labels) auto
  then have "0 \<le> y" using b(3) by (simp add: list_all_iff)
  moreover have "y \<le> Max (set labels)" using y by simp
  ultimately have "- 1 \<le> Max (set labels)" by linarith
  then have "Max (insert (- 1) (set labels)) = Max (set labels)"
    using ne by (simp add: max_def)
  then show "length h = max 10 (nat (Max (set labels) + 1))"
    using b(1) by (simp add: fold_max_Max)
qed

lemma norm2_pair: "norm2 [x, 0] = \<bar>x\<bar>"
  by (simp add: norm2_def)

lemma renorm_short: "\<bar>x\<bar> \<le> 1 \<Longrightarrow> renorm 1 ([x, 0] # t) = [x, 0] # renorm 1 t"
  by (simp add: renorm_def norm2_pair)

lemma renorm_Nil: "renorm 1 [] = []"
  by (simp add: renorm_def)

lemma upt_12: "[0 ..< 12] = [0, 1, 2, 3, 4, 5, 6, 7, 8, 9, 10, 11]"
  by (simp add: upt_rec)

lemma replicate_12: "replicate 12 x = [x, x, x, x, x, x, x, x, x, x, x, x]"
  by (simp add: eval_nat_numeral)

lemma DKNN_ex_two_layers:
  "DKNN padded_search ex_net [[1, 0], [0, 1]] [0, 1] [[1, 0]] [1] [''conv1'', ''fc''] 2 10
     = Inr ex_two_layers"
  by (simp add: DKNN_def init_attributes_def ex_net_def ex_two_layers_def get_activations_def
        classify_def get_neighbors_def padded_search_def renorm_def norm2_def
        build_index_def IndexLSH_def index_add_def np_getitem_def bincount_def np_iadd_def
        upt_10 replicate_10 Let_def upt_rec)

lemma DKNN_ex_twelve:
  "DKNN flat_ip_search ex_net [[1, 0], [0, 1]] [11, 3] [[1, 0]] [11] [''fc''] 1 12
     = Inr ex_twelve"
  by (simp add: DKNN_def init_attributes_def ex_net_def ex_twelve_def get_activations_def
        classify_def get_neighbors_def flat_ip_search_def renorm_def norm2_def
        build_index_def IndexLSH_def index_add_def np_getitem_def bincount_def np_iadd_def
        upt_12 replicate_12 Let_def upt_rec)

lemma DKNN_ex_half:
  "DKNN echo_search ex_net [[1 / 2, 0]] [0] [[1 / 2, 0]] [0] [''fc''] 1 10 = Inr ex_half"
  by (simp add: DKNN_def init_attributes_def ex_net_def ex_half_def get_activations_def
        classify_def get_neighbors_def echo_search_def renorm_short renorm_Nil
        build_index_def IndexLSH_def index_add_def np_getitem_def bincount_def np_iadd_def
        upt_10 replicate_10 Let_def)

lemma mapM_map: "mapM f (map g xs) = mapM (\<lambda>x. f (g x)) xs"
  by (induction xs) (simp_all split: sum.splits)

lemma mapM_cong: "(\<And>x. x \<in> set xs \<Longrightarrow> f x = g x) \<Longrightarrow> mapM f xs = mapM g xs"
  by (induction xs) (simp_all split: sum.splits)

lemma DKNN_zip:
  assumes "DKNN search model x_train y_train x_cal y_cal layers k num_classes = Inr self"
  shows "zip (self_layers self) (self_indices self)
           = map (\<lambda>l. (l, build_index (renorm 1 (map (child_output model l) x_train)))) layers"
  using DKNN_Inr(3,7) [OF assms] by (simp add: zip_map2 zip_same_conv_map)

lemma DKNN_ndim:
  assumes "DKNN search model x_train y_train x_cal y_cal layers k num_classes = Inr self"
  shows "list_all (\<lambda>l. 2 \<le> child_ndim model l) layers"
    and "layers \<noteq> [] \<longrightarrow> x_cal \<noteq> []"
proof -
  note b = DKNN_Inr [OF assms]
  from b(10) obtain nb where "fst (get_neighbors search self x_cal None None) = Inr nb"
    by (auto simp: fst_classify split: sum.splits)
  then have "neighbors_loop search (fst (get_activations self x_cal)) (child_ndim model)
               (length x_cal) k layers (zip (self_layers self) (self_indices self)) = Inr nb"
    by (simp add: fst_get_neighbors b(1) b(3) b(4))
  from neighbors_loop_Inr [OF this]
  have all: "\<forall>l \<in> set layers. 2 \<le> child_ndim model l \<and> length x_cal \<noteq> 0"
    by (simp add: DKNN_zip [OF assms] list_all_iff)
  show "list_all (\<lambda>l. 2 \<le> child_ndim model l) layers"
    using all by (simp add: list_all_iff)
  show "layers \<noteq> [] \<longrightarrow> x_cal \<noteq> []"
    using all by (cases layers) auto
qed

lemma get_neighbors_built:
  assumes "DKNN search model x_train y_train x_cal y_cal layers k num_classes = Inr self"
    and "x \<noteq> []"
  shows "fst (get_neighbors search self x (Some k') None)
           = mapM (\<lambda>layer. search
                          (build_index (renorm 1 (map (child_output model layer) x_train)))
                          (renorm 1 (map (child_output model layer) x)) k') layers"
proof -
  note b = DKNN_Inr [OF assms(1)]
  let ?reps = "fst (get_activations self x)"
  let ?zs = "zip (self_layers self) (self_indices self)"
  have reps: "\<And>l. l \<in> set layers \<Longrightarrow> ?reps l = Some (map (child_output model l) x)"
    using b(8) by (auto simp: fst_get_activations b(1))
  note zs = DKNN_zip [OF assms(1)]
  have all: "list_all (\<lambda>p. fst p \<in> set layers \<and> ?reps (fst p) \<noteq> None \<and>
                          2 \<le> child_ndim model (fst p)) ?zs"
    using reps DKNN_ndim(1) [OF assms(1)] by (simp add: zs list_all_iff)
  have "fst (get_neighbors search self x (Some k') None)
          = mapM (\<lambda>p. search (snd p) (renorm 1 (the (?reps (fst p)))) k') ?zs"
    using neighbors_loop_all [OF all, of "length x" search k'] assms(2)
    by (simp add: fst_get_neighbors b(1) b(3))
  also have "mapM (\<lambda>p. search (snd p) (renorm 1 (the (?reps (fst p)))) k') ?zs
      = mapM (\<lambda>layer. search
                          (build_index (renorm 1 (map (child_output model layer) x_train)))
                          (renorm 1 (the (?reps layer))) k') layers"
    by (simp add: zs mapM_map)
  also have "\<dots> = mapM (\<lambda>layer. search
                          (build_index (renorm 1 (map (child_output model layer) x_train)))
                          (renorm 1 (map (child_output model layer) x)) k') layers"
    using reps by (intro mapM_cong) simp
  finally show ?thesis .
qed

lemma get_neighbors_default_k:
  "get_neighbors search self x (Some (self_k self)) layers = get_neighbors search self x None layers"
  by (simp add: get_neighbors_def)

lemma get_neighbors_built_default:
  assumes "DKNN search model x_train y_train x_cal y_cal layers k num_classes = Inr self"
    and "x \<noteq> []"
  shows "fst (get_neighbors search self x None None)
           = mapM (\<lambda>layer. search
                          (build_index (renorm 1 (map (child_output model layer) x_train)))
                          (renorm 1 (map (child_output model layer) x)) k) layers"
proof -
  have "self_k self = k" by (rule DKNN_Inr(4) [OF assms(1)])
  then have "get_neighbors search self x None None = get_neighbors search self x (Some k) None"
    using get_neighbors_default_k [of search self x None] by simp
  then show ?thesis by (simp add: get_neighbors_built [OF assms])
qed

lemma get_neighbors_built_empty:
  assumes "DKNN search model x_train y_train x_cal y_cal layers k num_classes = Inr self"
    and "layers \<noteq> []"
  shows "fst (get_neighbors search self [] None None) = Inl ValueError"
proof -
  note b = DKNN_Inr [OF assms(1)]
  let ?reps = "fst (get_activations self [])"
  let ?zs = "zip (self_layers self) (self_indices self)"
  note zs = DKNN_zip [OF assms(1)]
  have ne: "?zs \<noteq> []" using assms(2) by (simp add: zs)
  have present: "list_all (\<lambda>p. ?reps (fst p) \<noteq> None \<and> 2 \<le> child_ndim model (fst p)) ?zs"
    using b(8) DKNN_ndim(1) [OF assms(1)]
    by (auto simp: zs list_all_iff fst_get_activations)
  have "list_all (\<lambda>p. fst p \<in> set (self_layers self)) ?zs" by (rule zip_fst_in)
  from neighbors_loop_empty_batch [OF ne this present]
  show ?thesis by (simp add: fst_get_neighbors b(1))
qed

lemma np_getitem_Inr:
  assumes "np_getitem a y = Inr v"
  shows "0 \<le> y \<longrightarrow> y < int (length a) \<and> v = a ! nat y"
    and "y < 0 \<longrightarrow> - int (length a) \<le> y \<and> v = a ! nat (int (length a) + y)"
  using assms by (auto simp: np_getitem_def split: if_splits)

lemma np_iadd_length: "np_iadd a b = Inr r \<Longrightarrow> length r = length a"
  by (auto simp: np_iadd_def split: if_splits)

lemma count_loop_width:
  "count_loop y_pred rng cc = Inr cc' \<Longrightarrow> list_all (\<lambda>row. length row = w) cc \<Longrightarrow>
   list_all (\<lambda>i. i < length cc) rng \<Longrightarrow> list_all (\<lambda>row. length row = w) cc'"
proof (induction rng arbitrary: cc)
  case Nil
  then show ?case by simp
next
  case (Cons i rng)
  from Cons.prems(1) obtain h row where
    a: "np_iadd (cc ! i) h = Inr row"
    and rec: "count_loop y_pred rng (cc[i := row]) = Inr cc'"
    by (auto split: sum.splits)
  from Cons.prems(3) have i: "i < length cc" by simp
  then have "length (cc ! i) = w" using Cons.prems(2) by (simp add: list_all_iff)
  then have "length row = w" using np_iadd_length [OF a] by simp
  then have "list_all (\<lambda>row. length row = w) (cc[i := row])"
    using Cons.prems(2) by (auto simp: list_all_iff dest: set_update_subset_insert [THEN subsetD])
  moreover have "list_all (\<lambda>i. i < length (cc[i := row])) rng"
    using Cons.prems(3) by simp
  ultimately show ?case using Cons.IH [OF rec] by simp
qed

lemma classify_loop_width:
  "classify_loop y_train n nb cc = Inr cc' \<Longrightarrow> list_all (\<lambda>row. length row = w) cc \<Longrightarrow>
   length cc = n \<Longrightarrow> list_all (\<lambda>row. length row = w) cc'"
proof (induction nb arbitrary: cc)
  case Nil
  then show ?case by simp
next
  case (Cons p nb)
  obtain D I where p: "p = (D, I)" by (cases p)
  from Cons.prems(1) p obtain y_pred counts where
    c: "count_loop y_pred [0 ..< n] cc = Inr counts"
    and rec: "classify_loop y_train n nb counts = Inr cc'"
    by (auto split: sum.splits)
  have "list_all (\<lambda>row. length row = w) counts"
    using Cons.prems(2,3) by (intro count_loop_width [OF c]) (simp_all add: list_all_iff)
  moreover have "length counts = n" using count_loop_length [OF c] Cons.prems(3) by simp
  ultimately show ?case using Cons.IH [OF rec] by simp
qed

lemma classify_width:
  fixes search :: "'d search"
  assumes "fst (classify search self x) = Inr cc"
  shows "list_all (\<lambda>row. length row = self_num_classes self) cc"
proof -
  from assms obtain nb :: "('d \<times> int list list) list" where
    "classify_loop (self_y_train self) (length x) nb
       (replicate (length x) (replicate (self_num_classes self) 0)) = Inr cc"
    by (auto simp: fst_classify split: sum.splits)
  then show ?thesis by (rule classify_loop_width) (simp_all add: list_all_iff)
qed

lemma mapM_np_max_Max:
  "list_all (\<lambda>row. row \<noteq> []) cc \<Longrightarrow> mapM np_max cc = Inr (map (\<lambda>row. Max (set row)) cc)"
  by (induction cc) (simp_all add: np_max_Max)

section \<open>Claims\<close>

text \<open>
  C1.  For an object built from a calibration set of \<open>n > 0\<close> samples with one label per
  sample, the nonconformity array has \<open>n\<close> entries and \<open>A[i]\<close> is \<open>k * L\<close> minus the
  entry of the calibration sample's vote row at its true label (the entry \<open>y\<close> of the row
  for a label \<open>y \<ge> 0\<close>, the entry counted from the end for a negative one); and for every
  matrix whose rows have at least one class \<^verbatim>\<open>credibility\<close> returns, for each row, the
  number of \<open>i\<close> with \<open>A[i] \<ge> k * L - max row\<close>, divided by \<open>n\<close>.
\<close>

theorem nonconformity_and_credibility:
  assumes "DKNN search model x_train y_train x_cal y_cal layers k num_classes = Inr self"
    and "length y_cal = length x_cal"
    and "x_cal \<noteq> []"
  shows "(\<exists>votes. fst (classify search self x_cal) = Inr votes \<and>
            length votes = length x_cal \<and> length (self_A self) = length x_cal \<and>
            (\<forall>i < length x_cal.
               length (votes ! i) = num_classes \<and>
               (\<exists>v. np_getitem (votes ! i) (y_cal ! i) = Inr v \<and>
                    self_A self ! i = real (k * length layers) - v) \<and>
               (0 \<le> y_cal ! i \<longrightarrow>
                  y_cal ! i < int num_classes \<and>
                  self_A self ! i = real (k * length layers) - votes ! i ! nat (y_cal ! i)) \<and>
               (y_cal ! i < 0 \<longrightarrow>
                  - int num_classes \<le> y_cal ! i \<and>
                  self_A self ! i
                    = real (k * length layers) - votes ! i ! nat (int num_classes + y_cal ! i)))) \<and>
         (\<forall>class_counts. list_all (\<lambda>row. row \<noteq> []) class_counts \<longrightarrow>
            fst (credibility self class_counts)
              = Inr (map (\<lambda>row. Finite (real (card {i. i < length x_cal \<and>
                                real (k * length layers) - Max (set row) \<le> self_A self ! i})
                             / real (length x_cal))) class_counts))"
proof -
  note b = DKNN_Inr [OF assms(1)]
  let ?n = "length x_cal"
  let ?kL = "real (k * length layers)"
  let ?A0 = "replicate ?n ?kL"
  from b(10) obtain votes where
    votes: "fst (classify search self x_cal) = Inr votes"
    and cal: "calibration_loop 0 (zip y_cal votes) ?A0 = Inr (self_A self)" by auto
  have lv: "length votes = ?n" using votes by (rule classify_length)
  have lA: "length (self_A self) = ?n" using DKNN_length_A [OF assms(1)] .
  have lz: "length (zip y_cal votes) = ?n" using lv assms(2) by simp
  have width: "list_all (\<lambda>row. length row = num_classes) votes"
    using classify_width [OF votes] by (simp add: b(5))
  from calibration_loop_nth [OF cal] lz lv assms(2)
  have nth: "\<forall>j < ?n. np_getitem (snd (zip y_cal votes ! j)) (fst (zip y_cal votes ! j))
                         = Inr (?A0 ! (0 + j) - self_A self ! (0 + j))"
    by simp
  have part1: "length (votes ! i) = num_classes \<and>
               (\<exists>v. np_getitem (votes ! i) (y_cal ! i) = Inr v \<and> self_A self ! i = ?kL - v) \<and>
               (0 \<le> y_cal ! i \<longrightarrow>
                  y_cal ! i < int num_classes \<and>
                  self_A self ! i = ?kL - votes ! i ! nat (y_cal ! i)) \<and>
               (y_cal ! i < 0 \<longrightarrow>
                  - int num_classes \<le> y_cal ! i \<and>
                  self_A self ! i = ?kL - votes ! i ! nat (int num_classes + y_cal ! i))"
    if i: "i < ?n" for i
  proof -
    from i lv have "votes ! i \<in> set votes" by simp
    then have w: "length (votes ! i) = num_classes" using width by (simp add: list_all_iff)
    from nth i have "np_getitem (snd (zip y_cal votes ! i)) (fst (zip y_cal votes ! i))
                         = Inr (?A0 ! i - self_A self ! i)" by simp
    then have g: "np_getitem (votes ! i) (y_cal ! i) = Inr (?kL - self_A self ! i)"
      using i lv assms(2) by simp
    from np_getitem_Inr [OF g] w
    have "0 \<le> y_cal ! i \<longrightarrow>
            y_cal ! i < int num_classes \<and> ?kL - self_A self ! i = votes ! i ! nat (y_cal ! i)"
      and "y_cal ! i < 0 \<longrightarrow>
            - int num_classes \<le> y_cal ! i \<and>
            ?kL - self_A self ! i = votes ! i ! nat (int num_classes + y_cal ! i)"
      by simp_all
    moreover have "\<exists>v. np_getitem (votes ! i) (y_cal ! i) = Inr v \<and> self_A self ! i = ?kL - v"
      using g by simp
    ultimately show ?thesis using w by (auto simp: algebra_simps)
  qed
  have part2: "fst (credibility self class_counts)
              = Inr (map (\<lambda>row. Finite (real (card {i. i < ?n \<and>
                                ?kL - Max (set row) \<le> self_A self ! i}) / real ?n)) class_counts)"
    if rows: "list_all (\<lambda>row. row \<noteq> []) class_counts" for class_counts
  proof -
    have "fst (credibility self class_counts)
            = Inr (map (\<lambda>v. credibility_at self (?kL - v))
                      (map (\<lambda>row. Max (set row)) class_counts))"
      using credibility_eq [OF mapM_np_max_Max [OF rows], of self] by (simp add: b(3) b(4))
    moreover have "credibility_at self a
                     = Finite (real (card {i. i < ?n \<and> a \<le> self_A self ! i}) / real ?n)" for a
      using assms(3) by (simp add: credibility_at_def np_divide_def cred_count_card lA)
    ultimately show ?thesis by (simp add: comp_def)
  qed
  show ?thesis using votes lv lA part1 part2 by blast
qed

theorem nonconformity_and_credibility_witness:
  "DKNN padded_search ex_net [[1, 0], [0, 1]] [0, 1] [[1, 0]] [0] [''fc''] 1 10 = Inr ex_dknn \<and>
   length [0 :: int] = length [[1, 0 :: real]] \<and> [[1, 0 :: real]] \<noteq> [] \<and>
   fst (classify padded_search ex_dknn [[1, 0]]) = Inr [[1, 0, 0, 0, 0, 0, 0, 0, 0, 0]] \<and>
   length (self_A ex_dknn) = length [[1, 0 :: real]] \<and>
   self_A ex_dknn = [1 * 1 - [1, 0, 0, 0, 0, 0, 0, 0, 0, 0] ! nat 0] \<and>
   list_all (\<lambda>row. row \<noteq> []) [[0, 1 :: real], [0, 0]] \<and>
   fst (credibility ex_dknn [[0, 1], [0, 0]]) = Inr [Finite (1 / 1), Finite (0 / 1)]"
proof -
  have votes: "fst (classify padded_search ex_dknn [[1, 0]])
                 = Inr [[1, 0, 0, 0, 0, 0, 0, 0, 0, 0]]"
    by (simp add: ex_dknn_def ex_net_def classify_def get_neighbors_def get_activations_def
        padded_search_def renorm_def norm2_def np_getitem_def bincount_def np_iadd_def
        upt_10 replicate_10 Let_def)
  have cred: "fst (credibility ex_dknn [[0, 1], [0, 0]]) = Inr [Finite (1 / 1), Finite (0 / 1)]"
    by (simp add: ex_dknn_def credibility_def np_max_def cred_count_def np_divide_def)
  have A: "self_A ex_dknn = [1 * 1 - [1, 0, 0, 0, 0, 0, 0, 0, 0, 0] ! nat 0]"
    by (simp add: ex_dknn_def)
  from nonconformity_and_credibility [OF DKNN_ex_dknn]
  have "length (self_A ex_dknn) = length [[1, 0 :: real]]" by auto
  with votes cred A DKNN_ex_dknn show ?thesis by simp
qed

text \<open>
  C2.  For a built object and a search that returns \<open>k\<close> positions per query, every row
  of the matrix returned by \<^verbatim>\<open>classify\<close> sums to \<open>k\<close> times the number of layers, and
  the matrix has one row per sample of the batch.
\<close>

theorem vote_sum:
  assumes "DKNN search model x_train y_train x_cal y_cal layers k num_classes = Inr self"
    and "search_shape search"
    and "fst (classify search self x) = Inr class_counts"
  shows "length class_counts = length x \<and>
         list_all (\<lambda>row. sum_list row = real (k * length layers)) class_counts"
proof -
  note b = DKNN_Inr [OF assms(1)]
  have len: "length class_counts = length x" using assms(3) by (rule classify_length)
  show ?thesis
  proof (cases "x = []")
    case True
    then show ?thesis using len by simp
  next
    case False
    let ?f = "\<lambda>layer. search
                          (build_index (renorm 1 (map (child_output model layer) x_train)))
                          (renorm 1 (map (child_output model layer) x)) k"
    have gn: "fst (get_neighbors search self x None None) = mapM ?f layers"
      by (rule get_neighbors_built_default [OF assms(1) False])
    let ?cc = "replicate (length x) (replicate num_classes (0::real))"
    from assms(3) gn obtain nb where
      nb: "mapM ?f layers = Inr nb"
      and cl: "classify_loop y_train (length x) nb ?cc = Inr class_counts"
      by (auto simp: fst_classify b(2) b(5) split: sum.splits)
    from mapM_Inr [OF nb] have all2: "list_all2 (\<lambda>l p. ?f l = Inr p) layers nb" .
    then have lnb: "length nb = length layers" by (simp add: list_all2_lengthD)
    have shape: "list_all (\<lambda>p. list_all (\<lambda>row. length row = k) (snd p)) nb"
      unfolding list_all_iff
    proof
      fix p assume "p \<in> set nb"
      with all2 obtain l where "?f l = Inr p"
        by (auto simp: list_all2_conv_all_nth in_set_conv_nth)
      then have "?f l = Inr (fst p, snd p)" by simp
      with assms(2) show "\<forall>row \<in> set (snd p). length row = k"
        unfolding search_shape_def list_all_iff by blast
    qed
    from classify_loop_sum [OF cl _ shape]
    have sums: "\<forall>j < length x. sum_list (class_counts ! j) = real (k * length layers)"
      by (simp add: sum_list_zeros lnb)
    have "sum_list row = real (k * length layers)" if "row \<in> set class_counts" for row
    proof -
      from that obtain j where "j < length class_counts" "row = class_counts ! j"
        by (auto simp: in_set_conv_nth)
      then show ?thesis using sums len by simp
    qed
    then show ?thesis using len by (simp add: list_all_iff)
  qed
qed

theorem vote_sum_witness:
  "DKNN padded_search ex_net [[1, 0], [0, 1]] [0, 1] [[1, 0]] [1] [''conv1'', ''fc''] 2 10
     = Inr ex_two_layers \<and>
   search_shape padded_search \<and>
   fst (classify padded_search ex_two_layers [[0, 1], [3, 4]])
     = Inr [[2, 2, 0, 0, 0, 0, 0, 0, 0, 0], [2, 2, 0, 0, 0, 0, 0, 0, 0, 0]] \<and>
   list_all (\<lambda>row. sum_list row = real (2 * length [''conv1'', ''fc'']))
     [[2, 2, 0, 0, 0, 0, 0, 0, 0, 0], [2, 2, 0, 0, 0, 0, 0, 0, 0, 0]]"
proof -
  have c: "fst (classify padded_search ex_two_layers [[0, 1], [3, 4]])
     = Inr [[2, 2, 0, 0, 0, 0, 0, 0, 0, 0], [2, 2, 0, 0, 0, 0, 0, 0, 0, 0]]"
    by (simp add: ex_two_layers_def ex_net_def classify_def get_neighbors_def
          get_activations_def padded_search_def length_renorm np_getitem_def bincount_def
          np_iadd_def upt_10 replicate_10 Let_def upt_rec)
  from vote_sum [OF DKNN_ex_two_layers padded_search_shape c]
  show ?thesis using DKNN_ex_two_layers padded_search_shape c by simp
qed

text \<open>
  C3, as the code has it.  \<^verbatim>\<open>get_neighbors\<close> never compares \<open>k\<close> with the number of
  indexed points.  For a built object and a batch that is not empty, what it does for
  every \<open>k\<close> is exactly the searches: it calls \<^verbatim>\<open>index.search\<close> with that \<open>k\<close> on each
  configured layer in turn and returns the list of the results, or raises what the first
  failing search raises.
\<close>

theorem no_degenerate_check:
  assumes "DKNN search model x_train y_train x_cal y_cal layers k num_classes = Inr self"
    and "x \<noteq> []"
  shows "fst (get_neighbors search self x (Some k') None)
           = mapM (\<lambda>layer. search
                          (build_index (renorm 1 (map (child_output model layer) x_train)))
                          (renorm 1 (map (child_output model layer) x)) k') layers"
  using assms by (rule get_neighbors_built)

theorem no_degenerate_check_witness:
  "DKNN flat_ip_search ex_net [[1, 0], [0, 1]] [0, 1] [[1, 0]] [0] [''fc''] 1 10 = Inr ex_dknn \<and>
   [[0, 1 :: real]] \<noteq> [] \<and>
   fst (get_neighbors flat_ip_search ex_dknn [[0, 1]] (Some 3) None)
     = mapM (\<lambda>layer. flat_ip_search (build_index (renorm 1 [[1, 0], [0, 1]]))
                       (renorm 1 [[0, 1]]) 3) [''fc''] \<and>
   fst (get_neighbors flat_ip_search ex_dknn [[0, 1]] (Some 3) None)
     = Inr [((), [[1, 0, - 1]])] \<and>
   fst (get_neighbors flat_ip_search ex_dknn [[0, 1]] (Some 0) None) = Inl AssertionError \<and>
   fst (get_neighbors flat_ip_search ex_dknn [[0, 1, 0]] (Some 1) None) = Inl AssertionError"
proof -
  have ev: "fst (get_neighbors flat_ip_search ex_dknn [[0, 1]] (Some 3) None)
              = Inr [((), [[1, 0, - 1]])]"
    "fst (get_neighbors flat_ip_search ex_dknn [[0, 1]] (Some 0) None) = Inl AssertionError"
    "fst (get_neighbors flat_ip_search ex_dknn [[0, 1, 0]] (Some 1) None) = Inl AssertionError"
    by (simp_all add: ex_dknn_def ex_net_def get_neighbors_def get_activations_def
          flat_ip_search_def renorm_def norm2_def Let_def upt_rec)
  from no_degenerate_check [OF DKNN_ex_dknn_flat, of "[[0, 1]]" 3]
  have "fst (get_neighbors flat_ip_search ex_dknn [[0, 1]] (Some 3) None)
     = mapM (\<lambda>layer. flat_ip_search (build_index (renorm 1 [[1, 0], [0, 1]]))
                       (renorm 1 [[0, 1]]) 3) [''fc'']"
    by (simp add: ex_net_def)
  then show ?thesis using ev DKNN_ex_dknn_flat by simp
qed

text \<open>
  C3 as stated fails: the index of the example holds two points, and a query with
  \<open>k = 3\<close> raises nothing; it returns the two stored positions, nearest first, and the
  padding \<open>-1\<close>.
\<close>

theorem degenerate_k_counterexample:
  "DKNN flat_ip_search ex_net [[1, 0], [0, 1]] [0, 1] [[1, 0]] [0] [''fc''] 1 10 = Inr ex_dknn \<and>
   map (\<lambda>index. length (index_xb index)) (self_indices ex_dknn) = [2] \<and>
   fst (get_neighbors flat_ip_search ex_dknn [[0, 1]] (Some 3) None)
     = Inr [((), [[1, 0, - 1]])]"
  by (intro conjI DKNN_ex_dknn_flat)
     (simp_all add: ex_dknn_def ex_net_def get_neighbors_def get_activations_def
        flat_ip_search_def renorm_def norm2_def Let_def upt_rec)

text \<open>
  C4 fails on the code, against the code's own comment (\<^verbatim>\<open>normalize activations so inner
  product is cosine similarity\<close>): \<^verbatim>\<open>renorm(2, 0, 1)\<close> only shortens rows longer than
  \<open>1\<close>.  A representation of norm \<open>1/2\<close> is added to the index, and passed to the search,
  as it is.
\<close>

theorem renorm_leaves_short_vectors:
  "DKNN echo_search ex_net [[1 / 2, 0]] [0] [[1 / 2, 0]] [0] [''fc''] 1 10 = Inr ex_half \<and>
   map index_xb (self_indices ex_half) = [[[1 / 2, 0]]] \<and>
   fst (get_neighbors echo_search ex_half [[1 / 2, 0]] None None)
     = Inr [([[1 / 2, 0]], [[0]])] \<and>
   norm2 [1 / 2, 0] = 1 / 2 \<and> norm2 [1 / 2, 0] \<noteq> 1"
  by (intro conjI DKNN_ex_half)
     (simp_all add: ex_half_def ex_net_def get_neighbors_def get_activations_def
        echo_search_def renorm_short renorm_Nil norm2_pair Let_def)

text \<open>
  C5, as the code has it.  With an empty calibration set and at least one configured layer
  the constructor raises (at the latest when \<^verbatim>\<open>get_neighbors\<close> reshapes the empty batch of
  representations), so no object is built.
\<close>

theorem empty_calibration_set:
  fixes search :: "'d search" and model :: "'x net"
  assumes "layers \<noteq> []"
  shows "\<exists>e. DKNN search model x_train y_train [] y_cal layers k num_classes = Inl e"
proof -
  define self0 where "self0 = init_attributes model x_train y_train layers k num_classes"
  define reps where "reps = fst (get_activations self0 x_train)"
  note D = DKNN_unfold [of search model x_train y_train "[]" y_cal layers k num_classes,
      unfolded Let_def, folded self0_def, folded reps_def]
  show ?thesis
  proof (cases "length (self_hooks self0) \<noteq> length layers")
    case True
    then show ?thesis by (simp add: D)
  next
    case False
    show ?thesis
    proof (cases "index_loop reps (length x_train) layers")
      case (Inl e)
      then show ?thesis using False by (simp add: D)
    next
      case (Inr indices)
      let ?s = "(snd (get_activations self0 x_train))\<lparr>self_indices := indices\<rparr>"
      from index_loop_Inr [OF Inr]
      have len: "length indices = length layers"
        and present: "list_all (\<lambda>l. reps l \<noteq> None) layers" by simp_all
      have lay: "self_layers ?s = layers"
        by (simp add: get_activations_fields self0_def init_attributes_simps)
      have zs: "zip layers indices \<noteq> []"
        using assms len by (cases layers; cases indices) simp_all
      from neighbors_loop_empty_batch_raises [OF zs zip_fst_in]
      have "\<exists>e. fst (get_neighbors search ?s [] None None) = Inl e"
        by (simp add: fst_get_neighbors lay)
      then obtain e where "fst (classify search ?s []) = Inl e"
        by (auto simp: fst_classify)
      then show ?thesis using False Inr by (simp add: D)
    qed
  qed
qed

theorem empty_calibration_set_witness:
  "[''fc''] \<noteq> [] \<and>
   (\<exists>e. DKNN padded_search ex_net [[0, 0]] [0] [] [] [''fc''] 1 10 = Inl e)"
  using empty_calibration_set [of "[''fc'']" padded_search ex_net "[[0, 0]]" "[0]" "[]" 1 10]
  by simp

text \<open>
  C5 as stated fails when no layer is configured: the constructor then returns an object,
  with an empty nonconformity array, for an empty calibration set.
\<close>

theorem empty_calibration_set_counterexample:
  "DKNN padded_search ex_net [[0, 0]] [0] [] [] [] 1 10 = Inr (ex_no_layers 10) \<and>
   self_A (ex_no_layers 10) = []"
  by (intro conjI DKNN_no_layers) (simp add: ex_no_layers_def)

text \<open>
  C6, as the code has it.  \<^verbatim>\<open>get_neighbors\<close> does not validate the requested layer
  names: the request only filters the configured layers, so a name that is not configured
  is ignored and the call returns what it returns without that name.
\<close>

theorem unknown_layers_ignored:
  "get_neighbors search self x k (Some requested)
     = get_neighbors search self x k
         (Some (filter (\<lambda>layer. layer \<in> set (self_layers self)) requested))"
  by (simp add: get_neighbors_def Let_def neighbors_loop_filter [OF zip_fst_in]
           split: prod.splits)

text \<open>
  C6 as stated fails: a request that names the unknown layer \<open>relu9\<close> raises nothing; it
  returns the result for the known layer, or no result at all.
\<close>

theorem unknown_layers_ignored_counterexample:
  "DKNN padded_search ex_net [[1, 0], [0, 1]] [0, 1] [[1, 0]] [0] [''fc''] 1 10 = Inr ex_dknn \<and>
   fst (get_neighbors padded_search ex_dknn [[0, 1]] None (Some [''fc'', ''relu9'']))
     = Inr [((), [[0]])] \<and>
   fst (get_neighbors padded_search ex_dknn [[0, 1]] None (Some [''relu9''])) = Inr []"
  by (intro conjI DKNN_ex_dknn)
     (simp_all add: ex_dknn_def ex_net_def get_neighbors_def get_activations_def
        padded_search_def renorm_def norm2_def Let_def)

text \<open>
  C7, as the code has it.  For an object whose nonconformity array is not empty, the value
  of \<^verbatim>\<open>credibility\<close> is a function of the nonconformity \<open>a\<close> of the row alone, it does
  not increase when \<open>a\<close> increases, and equal \<open>a\<close> give equal values.
\<close>

theorem credibility_monotone:
  assumes "self_A self \<noteq> []"
  shows "(mapM np_max class_counts = Inr m \<longrightarrow>
           fst (credibility self class_counts)
             = Inr (map (\<lambda>v. credibility_at self
                        (real (self_k self * length (self_layers self)) - v)) m)) \<and>
         (a1 < a2 \<longrightarrow> float_ge (credibility_at self a1) (credibility_at self a2)) \<and>
         (a1 = a2 \<longrightarrow> float_eq (credibility_at self a1) (credibility_at self a2))"
proof -
  have n: "0 < length (self_A self)" using assms by simp
  have "a1 < a2 \<Longrightarrow> float_ge (credibility_at self a1) (credibility_at self a2)"
    using n cred_count_antimono [of a1 a2 "self_A self"]
    by (simp add: credibility_at_def np_divide_def divide_right_mono)
  moreover have "a1 = a2 \<Longrightarrow> float_eq (credibility_at self a1) (credibility_at self a2)"
    using n by (simp add: credibility_at_def np_divide_def)
  ultimately show ?thesis by (simp add: credibility_eq)
qed

theorem credibility_monotone_witness:
  "self_A ex_dknn \<noteq> [] \<and>
   mapM np_max [[0, 1]] = Inr [1] \<and>
   fst (credibility ex_dknn [[0, 1]]) = Inr [Finite 1] \<and>
   (0::real) < 1 \<and>
   float_ge (credibility_at ex_dknn 0) (credibility_at ex_dknn 1) \<and>
   credibility_at ex_dknn 0 = Finite 1 \<and> credibility_at ex_dknn 1 = Finite 0"
  using credibility_monotone [of ex_dknn "[[0, 1]]" "[1]" 0 1]
  by (simp add: ex_dknn_def credibility_at_def cred_count_def np_divide_def np_max_def)

text \<open>
  C7 as stated fails for the object built with no layers and an empty calibration set: its
  credibility is \<^verbatim>\<open>nan\<close> at every \<open>a\<close>, and \<^verbatim>\<open>nan\<close> is neither greater than or equal to
  nor equal to itself.
\<close>

theorem credibility_monotone_counterexample:
  "DKNN padded_search ex_net [[0, 0]] [0] [] [] [] 1 10 = Inr (ex_no_layers 10) \<and>
   fst (credibility (ex_no_layers 10) [[1], [0]]) = Inr [NaN, NaN] \<and>
   credibility_at (ex_no_layers 10) (- 1) = NaN \<and>
   credibility_at (ex_no_layers 10) 0 = NaN \<and>
   \<not> float_ge (credibility_at (ex_no_layers 10) (- 1)) (credibility_at (ex_no_layers 10) 0) \<and>
   \<not> float_eq (credibility_at (ex_no_layers 10) 0) (credibility_at (ex_no_layers 10) 0)"
  by (intro conjI DKNN_no_layers)
     (simp_all add: credibility_def credibility_at_def np_divide_def cred_count_def
        np_max_def ex_no_layers_def)

text \<open>
  C8, as the code has it.  For an object built from a calibration set that is not empty,
  \<^verbatim>\<open>credibility\<close> returns, for every matrix whose rows have at least one class, one value
  per row, each of them in \<open>[0, 1]\<close>.
\<close>

theorem credibility_range:
  assumes "DKNN search model x_train y_train x_cal y_cal layers k num_classes = Inr self"
    and "x_cal \<noteq> []"
    and "list_all (\<lambda>row. row \<noteq> []) class_counts"
  shows "\<exists>cred. fst (credibility self class_counts) = Inr cred \<and>
           length cred = length class_counts \<and>
           list_all (\<lambda>c. \<exists>v. c = Finite v \<and> 0 \<le> v \<and> v \<le> 1) cred"
proof -
  have A: "self_A self \<noteq> []"
    using DKNN_length_A [OF assms(1)] assms(2) by auto
  from mapM_np_max [OF assms(3)] obtain m where
    m: "mapM np_max class_counts = Inr m" "length m = length class_counts" by auto
  show ?thesis
    using credibility_at_range [OF A] m
    by (simp add: credibility_eq [OF m(1)] list_all_iff)
qed

theorem credibility_range_witness:
  "DKNN padded_search ex_net [[1, 0], [0, 1]] [0, 1] [[1, 0]] [0] [''fc''] 1 10 = Inr ex_dknn \<and>
   [[1, 0 :: real]] \<noteq> [] \<and> list_all (\<lambda>row. row \<noteq> []) [[0, 1 :: real], [0, 0]] \<and>
   fst (credibility ex_dknn [[0, 1], [0, 0]]) = Inr [Finite 1, Finite 0]"
  using credibility_range [OF DKNN_ex_dknn, of "[[0, 1], [0, 0]]"] DKNN_ex_dknn
  by (simp add: credibility_def ex_dknn_def np_max_def cred_count_def np_divide_def)

text \<open>
  C8 as stated fails for the object built with no layers and an empty calibration set:
  the division by the size of the calibration set is \<open>0/0\<close> and the result is \<^verbatim>\<open>nan\<close>.
\<close>

theorem credibility_range_counterexample:
  "DKNN padded_search ex_net [[0, 0]] [0] [] [] [] 1 10 = Inr (ex_no_layers 10) \<and>
   fst (credibility (ex_no_layers 10) [[1, 2]]) = Inr [NaN]"
  by (intro conjI DKNN_no_layers)
     (simp add: credibility_def ex_no_layers_def np_max_def cred_count_def np_divide_def)

text \<open>
  C9.  No operation changes the per-layer indices, the training labels or the nonconformity
  array: after \<^verbatim>\<open>get_neighbors\<close>, \<^verbatim>\<open>classify\<close> and \<^verbatim>\<open>credibility\<close> the attributes
  \<open>indices\<close>, \<open>y_train\<close> and \<open>A\<close> are what they were before the call, whether the call
  returns or raises.  (The calls do change \<open>activations\<close>, which the hooks overwrite.)
\<close>

theorem attributes_unchanged:
  "self_indices (snd (get_neighbors search self x k layers)) = self_indices self \<and>
   self_y_train (snd (get_neighbors search self x k layers)) = self_y_train self \<and>
   self_A (snd (get_neighbors search self x k layers)) = self_A self \<and>
   self_indices (snd (classify search self x)) = self_indices self \<and>
   self_y_train (snd (classify search self x)) = self_y_train self \<and>
   self_A (snd (classify search self x)) = self_A self \<and>
   self_indices (snd (credibility self class_counts)) = self_indices self \<and>
   self_y_train (snd (credibility self class_counts)) = self_y_train self \<and>
   self_A (snd (credibility self class_counts)) = self_A self"
  by (simp add: snd_get_neighbors snd_classify snd_credibility get_activations_fields)

text \<open>
  C10, as the code has it.  The histogram added to a row of the vote matrix has
  \<open>max 10 (largest label + 1)\<close> bins, at least \<open>10\<close> whatever \<open>num_classes\<close> is.  So for
  an object built with \<open>num_classes \<noteq> 10\<close> and at least one layer, \<^verbatim>\<open>classify\<close> raises
  ValueError on every batch whose neighbour labels all lie in \<open>[0, 10)\<close>: on a batch of no
  samples, and on every other batch for which the searches return neighbours and the
  labels of all of them lie in \<open>[0, 10)\<close>.
\<close>

theorem histogram_width:
  assumes "DKNN search model x_train y_train x_cal y_cal layers k num_classes = Inr self"
    and "search_shape search"
    and "num_classes \<noteq> 10" and "layers \<noteq> []"
    and "x \<noteq> [] \<Longrightarrow>
           \<exists>nb. fst (get_neighbors search self x None None) = Inr nb \<and>
             list_all (\<lambda>p. \<exists>y_pred. take_labels y_train (snd p) = Inr y_pred \<and>
                          list_all (list_all (\<lambda>y. 0 \<le> y \<and> y < 10)) y_pred) nb"
  shows "fst (classify search self x) = Inl ValueError \<and>
         (\<forall>labels h. bincount labels 10 = Inr h \<longrightarrow>
            10 \<le> length h \<and>
            (labels \<noteq> [] \<longrightarrow> length h = max 10 (nat (Max (set labels) + 1))))"
proof -
  note b = DKNN_Inr [OF assms(1)]
  have main: "fst (classify search self x) = Inl ValueError"
  proof (cases "x = []")
    case True
    then show ?thesis
      using get_neighbors_built_empty [OF assms(1) assms(4)] by (simp add: fst_classify)
  next
    case False
    from assms(4) obtain l0 ls where layers: "layers = l0 # ls" by (cases layers) auto
    let ?idx = "\<lambda>layer. build_index (renorm 1 (map (child_output model layer) x_train))"
    let ?q = "\<lambda>layer. renorm 1 (map (child_output model layer) x)"
    from assms(5) [OF False] obtain nb where
      nb: "fst (get_neighbors search self x None None) = Inr nb"
      and lab: "list_all (\<lambda>p. \<exists>y_pred. take_labels y_train (snd p) = Inr y_pred \<and>
                          list_all (list_all (\<lambda>y. 0 \<le> y \<and> y < 10)) y_pred) nb"
      by auto
    from nb have "mapM (\<lambda>layer. search (?idx layer) (?q layer) k) layers = Inr nb"
      using get_neighbors_built_default [OF assms(1) False] by simp
    then obtain D I nb' where DI: "search (?idx l0) (?q l0) k = Inr (D, I)"
      and nb_eq: "nb = (D, I) # nb'"
      by (auto simp: layers split: sum.splits)
    have lI: "length I = length x"
      using assms(2) DI unfolding search_shape_def by (auto simp: length_renorm)
    from lab obtain y_pred where
      yp: "take_labels y_train I = Inr y_pred"
      and small: "list_all (list_all (\<lambda>y. 0 \<le> y \<and> y < 10)) y_pred"
      by (auto simp: nb_eq)
    have lyp: "length y_pred = length x" using mapM_length [OF yp] lI by simp
    from False lyp have pos0: "0 < length y_pred" by simp
    then have "y_pred ! 0 \<in> set y_pred" by (rule nth_mem)
    then have "list_all (\<lambda>y. 0 \<le> y \<and> y < 10) (y_pred ! 0)"
      using small by (simp add: list_all_iff [of _ y_pred])
    from bincount_small [OF this] obtain h where
      h: "bincount (y_pred ! 0) 10 = Inr h" "length h = 10" by auto
    let ?cc = "replicate (length x) (replicate num_classes (0::real))"
    have g0: "np_getitem y_pred (int 0) = Inr (y_pred ! 0)"
      using pos0 by (simp add: np_getitem_def)
    have add: "np_iadd (?cc ! 0) h = Inl ValueError"
      using assms(3) False h(2) by (simp add: np_iadd_def)
    have range: "[0 ..< length x] = 0 # [1 ..< length x]"
      using False by (simp add: upt_conv_Cons)
    have "count_loop y_pred [0 ..< length x] ?cc = Inl ValueError"
      unfolding range using g0 h(1) add by simp
    then have "classify_loop y_train (length x) nb ?cc = Inl ValueError"
      using yp by (simp add: nb_eq)
    then show ?thesis
      using nb by (simp add: fst_classify b(2) b(5))
  qed
  show ?thesis using main bincount_length by blast
qed

theorem histogram_width_witness:
  "DKNN flat_ip_search ex_net [[1, 0], [0, 1]] [11, 3] [[1, 0]] [11] [''fc''] 1 12
     = Inr ex_twelve \<and>
   search_shape flat_ip_search \<and> (12 :: nat) \<noteq> 10 \<and> [''fc''] \<noteq> [] \<and>
   fst (get_neighbors flat_ip_search ex_twelve [[0, 1]] None None) = Inr [((), [[1]])] \<and>
   take_labels [11, 3] [[1]] = Inr [[3]] \<and>
   fst (classify flat_ip_search ex_twelve [[0, 1]]) = Inl ValueError \<and>
   fst (classify flat_ip_search ex_twelve [[1, 0]])
     = Inr [[0, 0, 0, 0, 0, 0, 0, 0, 0, 0, 0, 1]]"
proof -
  have nb: "fst (get_neighbors flat_ip_search ex_twelve [[0, 1]] None None)
              = Inr [((), [[1]])]"
    by (simp add: ex_twelve_def ex_net_def get_neighbors_def get_activations_def
          flat_ip_search_def renorm_def norm2_def Let_def upt_rec)
  have labels: "take_labels [11, 3] [[1]] = Inr [[3]]"
    by (simp add: np_getitem_def)
  have ok: "fst (classify flat_ip_search ex_twelve [[1, 0]])
              = Inr [[0, 0, 0, 0, 0, 0, 0, 0, 0, 0, 0, 1]]"
    by (simp add: ex_twelve_def ex_net_def classify_def get_neighbors_def
          get_activations_def flat_ip_search_def renorm_def norm2_def np_getitem_def
          bincount_def np_iadd_def upt_12 replicate_12 Let_def upt_rec)
  have "fst (classify flat_ip_search ex_twelve [[0, 1]]) = Inl ValueError"
    using histogram_width [OF DKNN_ex_twelve flat_ip_search_shape, of "[[0, 1]]"]
      nb labels by simp
  then show ?thesis using DKNN_ex_twelve flat_ip_search_shape nb labels ok by simp
qed

text \<open>
  C10 as stated fails for an object with no layers: no histogram is ever added, and
  \<^verbatim>\<open>classify\<close> returns the zero matrix of width \<open>num_classes = 3\<close>.
\<close>

theorem histogram_width_counterexample:
  "DKNN padded_search ex_net [[0, 0]] [0] [] [] [] 1 3 = Inr (ex_no_layers 3) \<and>
   fst (classify padded_search (ex_no_layers 3) [[0, 0]]) = Inr [[0, 0, 0]]"
  by (intro conjI DKNN_no_layers)
     (simp add: ex_no_layers_def classify_def get_neighbors_def get_activations_def
        eval_nat_numeral Let_def)

end
